theory Spec2Isabelle
  imports Complex_Main
begin

section \<open>Vectors and the numpy operations the sources use\<close>

text \<open>
  The sources compute with numpy arrays of double-precision floats. The embedding uses
  exact reals for the numbers. Where numpy produces an array of NaNs (a zero vector divided
  by its zero norm gives a RuntimeWarning and NaNs, no exception), the model has the value
  \<open>None\<close>; every comparison against a NaN is false, as in numpy.
\<close>

type_synonym vec3 = "real \<times> real \<times> real"

text \<open>A numpy vector that may consist of NaNs only (\<open>None\<close>).\<close>
type_synonym npvec = "vec3 option"

type_synonym face = "nat \<times> nat \<times> nat"

type_synonym triangle = "vec3 \<times> vec3 \<times> vec3"

text \<open>
  The exceptions: IndexError and ZeroDivisionError are Python's; DegenerateFaceError is
  the name the specification gives to the error of a degenerate face, which no source
  file defines or raises.
\<close>
datatype py_error = IndexError | ZeroDivisionError | DegenerateFaceError

fun vadd :: "vec3 \<Rightarrow> vec3 \<Rightarrow> vec3" where
  "vadd (a, b, c) (x, y, z) = (a + x, b + y, c + z)"

fun vsub :: "vec3 \<Rightarrow> vec3 \<Rightarrow> vec3" where
  "vsub (a, b, c) (x, y, z) = (a - x, b - y, c - z)"

fun vscale :: "real \<Rightarrow> vec3 \<Rightarrow> vec3" where
  "vscale k (x, y, z) = (k * x, k * y, k * z)"

fun vdiv :: "vec3 \<Rightarrow> real \<Rightarrow> vec3" where
  "vdiv (x, y, z) k = (x / k, y / k, z / k)"

fun dot :: "vec3 \<Rightarrow> vec3 \<Rightarrow> real" where
  "dot (a, b, c) (x, y, z) = a * x + b * y + c * z"

fun cross :: "vec3 \<Rightarrow> vec3 \<Rightarrow> vec3" where
  "cross (a, b, c) (x, y, z) = (b * z - c * y, c * x - a * z, a * y - b * x)"

text \<open>\<open>np.linalg.norm\<close> of a vector.\<close>
definition norm3 :: "vec3 \<Rightarrow> real" where
  "norm3 v = sqrt (dot v v)"

text \<open>\<open>v / np.linalg.norm(v)\<close>: the zero vector gives NaNs.\<close>
definition np_normalize :: "vec3 \<Rightarrow> npvec" where
  "np_normalize v = (if norm3 v = 0 then None else Some (vdiv v (norm3 v)))"

text \<open>\<open>np.mean(face_vertices, axis=0)\<close> of three rows.\<close>
fun face_center :: "triangle \<Rightarrow> vec3" where
  "face_center (p, q, r) = vdiv (vadd (vadd p q) r) 3"

section \<open>The icosahedron (get_icosahedron)\<close>

definition phi :: real where
  "phi = (1 + sqrt 5) / 2"

definition raw_vertices :: "vec3 list" where
  "raw_vertices =
    [(- 1, phi, 0), (1, phi, 0), (- 1, - phi, 0), (1, - phi, 0),
     (0, - 1, phi), (0, 1, phi), (0, - 1, - phi), (0, 1, - phi),
     (phi, 0, - 1), (phi, 0, 1), (- phi, 0, - 1), (- phi, 0, 1)]"

definition icosahedron_faces :: "face list" where
  "icosahedron_faces =
    [(0, 11, 5), (0, 5, 1), (0, 1, 7), (0, 7, 10), (0, 10, 11),
     (1, 5, 9), (5, 11, 4), (11, 10, 2), (10, 7, 6), (7, 1, 8),
     (3, 9, 4), (3, 4, 2), (3, 2, 6), (3, 6, 8), (3, 8, 9),
     (4, 9, 5), (2, 4, 11), (6, 2, 10), (8, 6, 7), (9, 8, 1)]"

text \<open>\<open>vertices *= 5 / np.linalg.norm(vertices[0])\<close>\<close>
definition icosahedron_vertices :: "vec3 list" where
  "icosahedron_vertices = map (vscale (5 / norm3 (raw_vertices ! 0))) raw_vertices"

definition get_icosahedron :: "vec3 list \<times> face list" where
  "get_icosahedron = (icosahedron_vertices, icosahedron_faces)"

subsection \<open>Edge adjacency of a face table\<close>

fun face_indices :: "face \<Rightarrow> nat list" where
  "face_indices (a, b, c) = [a, b, c]"

text \<open>An undirected edge is the pair of its end points, smaller index first.\<close>
definition edge :: "nat \<Rightarrow> nat \<Rightarrow> nat \<times> nat" where
  "edge a b = (min a b, max a b)"

fun face_edges :: "face \<Rightarrow> (nat \<times> nat) list" where
  "face_edges (a, b, c) = [edge a b, edge b c, edge c a]"

definition mesh_edges :: "face list \<Rightarrow> (nat \<times> nat) list" where
  "mesh_edges fs = remdups (concat (map face_edges fs))"

text \<open>The number of faces of the table that have the edge.\<close>
definition edge_face_count :: "face list \<Rightarrow> nat \<times> nat \<Rightarrow> nat" where
  "edge_face_count fs e = length (filter (\<lambda>f. e \<in> set (face_edges f)) fs)"


section \<open>numpy scalar operations\<close>

text \<open>A float that may be non-finite: \<open>None\<close> stands for inf or NaN.\<close>
type_synonym npfloat = "real option"

definition np_degrees :: "real \<Rightarrow> real" where
  "np_degrees x = x * 180 / pi"

definition np_radians :: "real \<Rightarrow> real" where
  "np_radians x = x * pi / 180"

text \<open>\<open>np.clip(x, lo, hi)\<close>\<close>
definition np_clip :: "real \<Rightarrow> real \<Rightarrow> real \<Rightarrow> real" where
  "np_clip x lo hi = min hi (max x lo)"

text \<open>\<open>np.arccos\<close>: outside \<open>[-1, 1]\<close> numpy warns and returns NaN.\<close>
definition np_arccos :: "real \<Rightarrow> npfloat" where
  "np_arccos x = (if - 1 \<le> x \<and> x \<le> 1 then Some (arccos x) else None)"

text \<open>Division of numpy floats: a zero divisor gives inf or NaN and a warning.\<close>
definition np_div :: "real \<Rightarrow> real \<Rightarrow> npfloat" where
  "np_div x y = (if y = 0 then None else Some (x / y))"

text \<open>\<open>np.sum\<close> of floats: non-finite as soon as one summand is.\<close>
definition np_sum :: "npfloat list \<Rightarrow> npfloat" where
  "np_sum xs = map_option sum_list (those xs)"

text \<open>Python's \<open>/\<close> on integers.\<close>
definition py_truediv :: "nat \<Rightarrow> nat \<Rightarrow> py_error + real" where
  "py_truediv a b = (if b = 0 then Inl ZeroDivisionError else Inr (real a / real b))"

text \<open>
  \<open>np.arctan2(y, x)\<close> by quadrant, with values in \<open>(-pi, pi]\<close>. The reals have one
  zero: for \<open>y = 0\<close> and \<open>x < 0\<close> the model has \<open>pi\<close>, where numpy returns \<open>pi\<close> for
  \<open>+0.0\<close> and \<open>-pi\<close> for \<open>-0.0\<close> or a negative rounding residue. The round-trip
  statements below therefore leave the angles 180 and -180 out.
\<close>
definition arctan2 :: "real \<Rightarrow> real \<Rightarrow> real" where
  "arctan2 y x =
    (if 0 < x then arctan (y / x)
     else if x < 0 then (if 0 \<le> y then arctan (y / x) + pi else arctan (y / x) - pi)
     else if 0 < y then pi / 2
     else if y < 0 then - (pi / 2)
     else 0)"

section \<open>Face normals and face lookup\<close>

text \<open>
  calculate_face_normal is the same in every source file: it divides the cross product of
  two edges by its norm and has no guard and no raise.
\<close>
fun calculate_face_normal :: "triangle \<Rightarrow> py_error + npvec" where
  "calculate_face_normal (v1, v2, v3) =
    (let edge1 = vsub v2 v1;
         edge2 = vsub v3 v1;
         normal = cross edge1 edge2
     in Inr (np_normalize normal))"

text \<open>\<open>vertices[face]\<close>: numpy raises IndexError for an index beyond the array.\<close>
fun face_vertices :: "vec3 list \<Rightarrow> face \<Rightarrow> py_error + triangle" where
  "face_vertices vs (a, b, c) =
    (if a < length vs \<and> b < length vs \<and> c < length vs
     then Inr (vs ! a, vs ! b, vs ! c) else Inl IndexError)"

section \<open>Angles\<close>

text \<open>
  calculate_angle (Objective_function.py, orientation.py, Testing_with_Euler_angles.py)
  clips the dot product, so the argument of arccos is always in its domain.
\<close>
definition calculate_angle :: "vec3 \<Rightarrow> vec3 \<Rightarrow> real" where
  "calculate_angle view_vector face_normal =
    np_degrees (arccos (np_clip (dot view_vector face_normal) (- 1) 1))"

text \<open>
  Six_camera.py line 70 (and Viewplanning.py, data_metrics.py, Chart_viscualisation.py,
  Data_collection.py): \<open>np.degrees(np.arccos(dot_product))\<close>, no clip.
\<close>
definition unclipped_angle :: "real \<Rightarrow> npfloat" where
  "unclipped_angle dot_product = map_option np_degrees (np_arccos dot_product)"

text \<open>The same expression with the clip of calculate_angle, on a given dot product.\<close>
definition clipped_angle :: "real \<Rightarrow> npfloat" where
  "clipped_angle cos_angle = map_option np_degrees (np_arccos (np_clip cos_angle (- 1) 1))"

section \<open>Back-face visibility\<close>

text \<open>
  The face loop of plot_sensor_and_phases in Objective_function.py (lines 63 to 91):
  the state is the sensor's list of visible face indices and the shared lists of
  distances and angles.
\<close>
fun faces_loop ::
  "vec3 \<Rightarrow> vec3 list \<Rightarrow> face list \<Rightarrow> nat \<Rightarrow> nat list \<times> real list \<times> real list
    \<Rightarrow> py_error + (nat list \<times> real list \<times> real list)" where
  "faces_loop sensor_position vs [] face_idx st = Inr st"
| "faces_loop sensor_position vs (f # fs) face_idx (svf, distances, angles) =
    (case face_vertices vs f of
       Inl e \<Rightarrow> Inl e
     | Inr fv \<Rightarrow>
        (case calculate_face_normal fv of
           Inl e \<Rightarrow> Inl e
         | Inr face_normal \<Rightarrow>
            (case (face_normal, np_normalize (vsub sensor_position (face_center fv))) of
               (Some n, Some view_vector) \<Rightarrow>
                 if 0 < dot n view_vector
                 then faces_loop sensor_position vs fs (Suc face_idx)
                        (svf @ [face_idx],
                         distances @ [norm3 (vsub sensor_position (face_center fv))],
                         angles @ [calculate_angle view_vector n])
                 else faces_loop sensor_position vs fs (Suc face_idx) (svf, distances, angles)
             | _ \<Rightarrow> faces_loop sensor_position vs fs (Suc face_idx) (svf, distances, angles))))"

text \<open>The sensor loop around it (lines 58 to 95).\<close>
fun sensors_loop ::
  "vec3 list \<Rightarrow> vec3 list \<Rightarrow> face list \<Rightarrow> nat list list \<times> real list \<times> real list
    \<Rightarrow> py_error + (nat list list \<times> real list \<times> real list)" where
  "sensors_loop [] vs fs st = Inr st"
| "sensors_loop (sensor_position # sps) vs fs (visible_faces, distances, angles) =
    (case faces_loop sensor_position vs fs 0 ([], distances, angles) of
       Inl e \<Rightarrow> Inl e
     | Inr (svf, distances', angles') \<Rightarrow>
         sensors_loop sps vs fs (visible_faces @ [svf], distances', angles'))"

definition get_sensor_positions :: "vec3 list" where
  "get_sensor_positions =
    [(8, 0, 0), (- 8, 0, 0), (0, 8, 0), (0, - 8, 0), (0, 0, 8), (0, 0, - 8)]"

text \<open>evaluate_visible_faces of Viewplanning.py; the position may be NaN.\<close>
fun evaluate_visible_faces_loop ::
  "npvec \<Rightarrow> vec3 list \<Rightarrow> face list \<Rightarrow> nat \<Rightarrow> py_error + nat" where
  "evaluate_visible_faces_loop sensor_position vs [] visible_faces = Inr visible_faces"
| "evaluate_visible_faces_loop sensor_position vs (f # fs) visible_faces =
    (case face_vertices vs f of
       Inl e \<Rightarrow> Inl e
     | Inr fv \<Rightarrow>
        (case calculate_face_normal fv of
           Inl e \<Rightarrow> Inl e
         | Inr face_normal \<Rightarrow>
            (case (face_normal,
                   Option.bind (map_option (\<lambda>p. vsub p (face_center fv)) sensor_position)
                     np_normalize) of
               (Some n, Some view_vector) \<Rightarrow>
                 evaluate_visible_faces_loop sensor_position vs fs
                   (if 0 < dot n view_vector then visible_faces + 1 else visible_faces)
             | _ \<Rightarrow> evaluate_visible_faces_loop sensor_position vs fs visible_faces)))"

definition evaluate_visible_faces :: "npvec \<Rightarrow> vec3 list \<Rightarrow> face list \<Rightarrow> py_error + nat" where
  "evaluate_visible_faces sensor_position vs fs =
    evaluate_visible_faces_loop sensor_position vs fs 0"

text \<open>
  The back-face test in the words of the specification: the face is visible iff the dot
  product of its normal with the normalised vector from its centre to the sensor is
  positive.
\<close>
definition backface_visible :: "vec3 \<Rightarrow> triangle \<Rightarrow> bool" where
  "backface_visible sensor_position fv =
    (case fv of (v0, v1, v2) \<Rightarrow>
      (let center = vdiv (vadd (vadd v0 v1) v2) 3;
           c = cross (vsub v1 v0) (vsub v2 v0);
           w = vsub sensor_position center
       in norm3 c \<noteq> 0 \<and> norm3 w \<noteq> 0 \<and> 0 < dot (vdiv c (norm3 c)) (vdiv w (norm3 w))))"

text \<open>The angle of a visible face: arccos of the clamped dot product, in degrees.\<close>
definition face_angle :: "vec3 \<Rightarrow> triangle \<Rightarrow> real" where
  "face_angle sensor_position fv =
    (case fv of (v0, v1, v2) \<Rightarrow>
      (let center = vdiv (vadd (vadd v0 v1) v2) 3;
           c = cross (vsub v1 v0) (vsub v2 v0);
           w = vsub sensor_position center
       in np_degrees (arccos (np_clip (dot (vdiv w (norm3 w)) (vdiv c (norm3 c))) (- 1) 1))))"

text \<open>The triangle of a face, and of the face with a given index (indices in range).\<close>
definition face_triangle :: "vec3 list \<Rightarrow> face \<Rightarrow> triangle" where
  "face_triangle vs f = (case f of (a, b, c) \<Rightarrow> (vs ! a, vs ! b, vs ! c))"

definition triangle_at :: "vec3 list \<Rightarrow> face list \<Rightarrow> nat \<Rightarrow> triangle" where
  "triangle_at vs fs i = face_triangle vs (fs ! i)"

definition face_in_range :: "vec3 list \<Rightarrow> face \<Rightarrow> bool" where
  "face_in_range vs f = (case f of (a, b, c) \<Rightarrow> a < length vs \<and> b < length vs \<and> c < length vs)"

section \<open>The rig objective (evaluate_coverage_view_plan)\<close>

definition overlap_penalty :: "nat list list \<Rightarrow> nat" where
  "overlap_penalty visible_faces =
    fold (\<lambda>i acc.
           fold (\<lambda>j acc'. acc' + card (set (visible_faces ! i) \<inter> set (visible_faces ! j)))
             [i + 1 ..< length visible_faces] acc)
         [0 ..< length visible_faces] 0"

definition angle_penalty :: "real list \<Rightarrow> npfloat" where
  "angle_penalty angles = np_sum (map (\<lambda>angle. np_div 1 (1 + cos (np_radians angle))) angles)"

definition evaluate_coverage_view_plan ::
  "vec3 list \<Rightarrow> nat list list \<Rightarrow> real list \<Rightarrow> real list \<Rightarrow> nat \<Rightarrow> py_error + npfloat" where
  "evaluate_coverage_view_plan sensors_positions visible_faces distances angles total_faces =
    (let unique_visible_faces = fold (\<lambda>faces u. u \<union> set faces) visible_faces {}
     in case py_truediv (card unique_visible_faces) total_faces of
          Inl e \<Rightarrow> Inl e
        | Inr coverage_score \<Rightarrow>
           (let total_distance = sum_list distances
            in case angle_penalty angles of
                 None \<Rightarrow> Inr None
               | Some penalty \<Rightarrow>
                   Inr (Some (coverage_score - total_distance / 100 - penalty
                               - real (overlap_penalty visible_faces) / 10))))"

text \<open>The objective in the words of the specification.\<close>
definition spec_overlap :: "nat list list \<Rightarrow> nat" where
  "spec_overlap visible_faces =
    (\<Sum>i = 0 ..< length visible_faces. \<Sum>j = i + 1 ..< length visible_faces.
        card (set (visible_faces ! i) \<inter> set (visible_faces ! j)))"

definition spec_objective :: "nat list list \<Rightarrow> real list \<Rightarrow> real list \<Rightarrow> nat \<Rightarrow> real" where
  "spec_objective visible_faces distances angles total_faces =
    real (card (\<Union> (set ` set visible_faces))) / real total_faces
    - sum_list distances / 100
    - (\<Sum>angle \<leftarrow> angles. 1 / (1 + cos (angle * pi / 180)))
    - real (spec_overlap visible_faces) / 10"

text \<open>
  plot_sensor_and_phases of Objective_function.py, without the drawing: the six sensors
  against the icosahedron, then the score.
\<close>
definition plot_sensor_and_phases :: "py_error + npfloat" where
  "plot_sensor_and_phases =
    (case get_icosahedron of (vertices, faces) \<Rightarrow>
      (case sensors_loop get_sensor_positions vertices faces ([], [], []) of
         Inl e \<Rightarrow> Inl e
       | Inr (visible_faces, distances, angles) \<Rightarrow>
           evaluate_coverage_view_plan get_sensor_positions visible_faces distances angles
             (length faces)))"

section \<open>The coverage score of optimization.py (update_scene, lines 83 to 85)\<close>

type_synonym face_datum = "nat \<times> real \<times> real \<times> vec3"

definition update_scene_score ::
  "face_datum list \<Rightarrow> (nat \<rightharpoonup> nat list) \<Rightarrow> nat \<Rightarrow> py_error + real" where
  "update_scene_score face_data expected_visible_faces sensor_idx =
    (let actual_faces = set (map fst face_data);
         expected_faces =
           set (case expected_visible_faces sensor_idx of None \<Rightarrow> [] | Some l \<Rightarrow> l)
     in py_truediv (card (actual_faces \<inter> expected_faces)) (max (card expected_faces) 1))"

text \<open>The ground-truth table of optimization.py (lines 48 to 51).\<close>
definition expected_visible_faces :: "nat \<rightharpoonup> nat list" where
  "expected_visible_faces =
    [0 \<mapsto> [0, 1, 5], 1 \<mapsto> [3, 4, 10], 2 \<mapsto> [6, 7, 8],
     3 \<mapsto> [9, 10, 11], 4 \<mapsto> [12, 13, 14], 5 \<mapsto> [15, 16, 17]]"

text \<open>The angles of visible faces: from 0 up to, not including, 90 degrees.\<close>
definition acute_angle :: "real \<Rightarrow> bool" where
  "acute_angle a \<longleftrightarrow> 0 \<le> a \<and> a < 90 \<and> 1 < 1 + cos (np_radians a)"

section \<open>The viewpoint search (select_best_viewpoint of Viewplanning.py)\<close>

text \<open>
  A candidate is a position with its count of visible faces. The draws of
  \<open>np.random.uniform(-1, 1, 3)\<close> are the values \<open>rnd 0\<close>, \<open>rnd 1\<close>, ... of an
  arbitrary function; the number of draws made so far is part of the state.
\<close>
type_synonym candidate = "npvec \<times> nat"

definition step_size :: real where
  "step_size = 1"

definition max_iterations :: nat where
  "max_iterations = 50"

definition num_candidates_to_keep :: nat where
  "num_candidates_to_keep = 10"

text \<open>Lines 116 and 117: the adjusted position, projected onto the sphere of radius 10.\<close>
definition perturb :: "npvec \<Rightarrow> vec3 \<Rightarrow> npvec" where
  "perturb position random_adjustment =
    (let new_position = map_option (\<lambda>p. vadd p (vscale step_size random_adjustment)) position
     in map_option (vscale 10) (Option.bind new_position np_normalize))"

text \<open>The inner loop: \<open>n\<close> adjustments of one candidate, appended to new_positions.\<close>
fun spawn ::
  "(nat \<Rightarrow> vec3) \<Rightarrow> vec3 list \<Rightarrow> face list \<Rightarrow> npvec \<Rightarrow> nat \<Rightarrow> nat \<Rightarrow> candidate list
    \<Rightarrow> py_error + (candidate list \<times> nat)" where
  "spawn rnd vs fs position 0 k new_positions = Inr (new_positions, k)"
| "spawn rnd vs fs position (Suc n) k new_positions =
    (let new_position = perturb position (rnd k)
     in case evaluate_visible_faces new_position vs fs of
          Inl e \<Rightarrow> Inl e
        | Inr visible_faces \<Rightarrow>
            spawn rnd vs fs position n (Suc k) (new_positions @ [(new_position, visible_faces)]))"

text \<open>The loop over the candidates held, five adjustments each.\<close>
fun expand ::
  "(nat \<Rightarrow> vec3) \<Rightarrow> vec3 list \<Rightarrow> face list \<Rightarrow> candidate list \<Rightarrow> nat \<Rightarrow> candidate list
    \<Rightarrow> py_error + (candidate list \<times> nat)" where
  "expand rnd vs fs [] k new_positions = Inr (new_positions, k)"
| "expand rnd vs fs ((position, visible_faces) # cs) k new_positions =
    (case spawn rnd vs fs position 5 k new_positions of
       Inl e \<Rightarrow> Inl e
     | Inr (new_positions', k') \<Rightarrow> expand rnd vs fs cs k' new_positions')"

text \<open>
  \<open>sorted(..., key=lambda x: x[1], reverse=True)\<close>: descending by count, and stable
  (Python keeps the order of equal keys also with \<open>reverse=True\<close>).
\<close>
definition sorted_by_visibility :: "candidate list \<Rightarrow> candidate list" where
  "sorted_by_visibility cs = sort_key (\<lambda>x. - int (snd x)) cs"

text \<open>One iteration: expand, merge parents and children, sort, truncate.\<close>
definition iteration ::
  "(nat \<Rightarrow> vec3) \<Rightarrow> vec3 list \<Rightarrow> face list \<Rightarrow> candidate list \<times> nat
    \<Rightarrow> py_error + (candidate list \<times> nat)" where
  "iteration rnd vs fs st =
    (case st of (candidate_positions, k) \<Rightarrow>
      (case expand rnd vs fs candidate_positions k [] of
         Inl e \<Rightarrow> Inl e
       | Inr (new_positions, k') \<Rightarrow>
           Inr (take num_candidates_to_keep
                  (sorted_by_visibility (candidate_positions @ new_positions)), k')))"

text \<open>The state after \<open>n\<close> iterations of the loop.\<close>
fun iterations ::
  "nat \<Rightarrow> (nat \<Rightarrow> vec3) \<Rightarrow> vec3 list \<Rightarrow> face list \<Rightarrow> candidate list \<times> nat
    \<Rightarrow> py_error + (candidate list \<times> nat)" where
  "iterations 0 rnd vs fs st = Inr st"
| "iterations (Suc n) rnd vs fs st =
    (case iterations n rnd vs fs st of
       Inl e \<Rightarrow> Inl e
     | Inr st' \<Rightarrow> iteration rnd vs fs st')"

definition initial_position :: npvec where
  "initial_position = Some (10, 0, 0)"

definition select_best_viewpoint :: "(nat \<Rightarrow> vec3) \<Rightarrow> py_error + npvec" where
  "select_best_viewpoint rnd =
    (case get_icosahedron of (vertices, faces) \<Rightarrow>
      (case evaluate_visible_faces initial_position vertices faces of
         Inl e \<Rightarrow> Inl e
       | Inr initial_visible_faces \<Rightarrow>
          (case iterations max_iterations rnd vertices faces
                  ([(initial_position, initial_visible_faces)], 0) of
             Inl e \<Rightarrow> Inl e
           | Inr (candidate_positions, k) \<Rightarrow>
              (case candidate_positions of
                 [] \<Rightarrow> Inl IndexError
               | (best_position, c) # rest \<Rightarrow> Inr best_position))))"

text \<open>The best count held in a pool of candidates.\<close>
definition best_count :: "candidate list \<Rightarrow> nat" where
  "best_count cs = Max (snd ` set cs)"

text \<open>The count of visible faces of the icosahedron from a position.\<close>
definition visible_count :: "npvec \<Rightarrow> nat" where
  "visible_count p =
    (case evaluate_visible_faces p icosahedron_vertices icosahedron_faces of
       Inl e \<Rightarrow> 0
     | Inr c \<Rightarrow> c)"

text \<open>Every candidate of the pool carries the count of its own position.\<close>
definition consistent :: "candidate list \<Rightarrow> bool" where
  "consistent cs = list_all (\<lambda>(p, c). c = visible_count p) cs"

section \<open>Rotation matrices and Euler angles\<close>

text \<open>A 3 x 3 matrix as its three rows; \<open>R[i, j]\<close> is \<open>entry R i j\<close>.\<close>
type_synonym mat3 = "vec3 \<times> vec3 \<times> vec3"

fun row :: "mat3 \<Rightarrow> nat \<Rightarrow> vec3" where
  "row (r0, r1, r2) i = (if i = 0 then r0 else if i = 1 then r1 else r2)"

fun coord :: "vec3 \<Rightarrow> nat \<Rightarrow> real" where
  "coord (x, y, z) j = (if j = 0 then x else if j = 1 then y else z)"

definition entry :: "mat3 \<Rightarrow> nat \<Rightarrow> nat \<Rightarrow> real" where
  "entry R i j = coord (row R i) j"

fun transpose3 :: "mat3 \<Rightarrow> mat3" where
  "transpose3 ((a, b, c), (d, e, f), (g, h, i)) = ((a, d, g), (b, e, h), (c, f, i))"

text \<open>\<open>np.dot\<close> of two matrices.\<close>
definition matmul :: "mat3 \<Rightarrow> mat3 \<Rightarrow> mat3" where
  "matmul A B =
    (case (A, transpose3 B) of ((r0, r1, r2), (c0, c1, c2)) \<Rightarrow>
      ((dot r0 c0, dot r0 c1, dot r0 c2),
       (dot r1 c0, dot r1 c1, dot r1 c2),
       (dot r2 c0, dot r2 c1, dot r2 c2)))"

definition identity3 :: mat3 where
  "identity3 = ((1, 0, 0), (0, 1, 0), (0, 0, 1))"

text \<open>A rotation matrix is orthogonal: its rows and its columns are orthonormal.\<close>
definition orthogonal3 :: "mat3 \<Rightarrow> bool" where
  "orthogonal3 R \<longleftrightarrow> matmul R (transpose3 R) = identity3 \<and> matmul (transpose3 R) R = identity3"

text \<open>The axis rotations of Testing_with_Euler_angles.py and orientation.py (degrees).\<close>
definition rotation_matrix_x :: "real \<Rightarrow> mat3" where
  "rotation_matrix_x theta =
    (let c = cos (np_radians theta); s = sin (np_radians theta)
     in ((1, 0, 0), (0, c, - s), (0, s, c)))"

definition rotation_matrix_y :: "real \<Rightarrow> mat3" where
  "rotation_matrix_y theta =
    (let c = cos (np_radians theta); s = sin (np_radians theta)
     in ((c, 0, s), (0, 1, 0), (- s, 0, c)))"

definition rotation_matrix_z :: "real \<Rightarrow> mat3" where
  "rotation_matrix_z theta =
    (let c = cos (np_radians theta); s = sin (np_radians theta)
     in ((c, - s, 0), (s, c, 0), (0, 0, 1)))"

text \<open>
  get_rotation_matrix of Chart_viscualisation.py: the three axis rotations, angles in
  radians, composed as \<open>Rz (Ry Rx)\<close>.
\<close>
definition get_rotation_matrix :: "real \<Rightarrow> real \<Rightarrow> real \<Rightarrow> mat3" where
  "get_rotation_matrix rotation_x rotation_y rotation_z =
    (let Rx = ((1, 0, 0), (0, cos rotation_x, - sin rotation_x), (0, sin rotation_x, cos rotation_x));
         Ry = ((cos rotation_y, 0, sin rotation_y), (0, 1, 0), (- sin rotation_y, 0, cos rotation_y));
         Rz = ((cos rotation_z, - sin rotation_z, 0), (sin rotation_z, cos rotation_z, 0), (0, 0, 1))
     in matmul Rz (matmul Ry Rx))"

text \<open>rotation_matrix_to_euler_angles of Testing_with_Euler_angles.py (lines 230 to 243).\<close>
definition rotation_matrix_to_euler_angles :: "mat3 \<Rightarrow> real \<times> real \<times> real" where
  "rotation_matrix_to_euler_angles R =
    (let sy = sqrt ((entry R 0 0)\<^sup>2 + (entry R 1 0)\<^sup>2);
         singular = (sy < 1 / 1000000)
     in if \<not> singular
        then (np_degrees (arctan2 (entry R 2 1) (entry R 2 2)),
              np_degrees (arctan2 (- entry R 2 0) sy),
              np_degrees (arctan2 (entry R 1 0) (entry R 0 0)))
        else (np_degrees (arctan2 (- entry R 1 2) (entry R 1 1)),
              np_degrees (arctan2 (- entry R 2 0) sy),
              np_degrees 0))"

text \<open>
  rotation_matrix_to_euler_angles of orientation.py (lines 241 to 245) and of
  Data_optimization_check.py: no singular branch.
\<close>
definition rotation_matrix_to_euler_angles_orientation :: "mat3 \<Rightarrow> real \<times> real \<times> real" where
  "rotation_matrix_to_euler_angles_orientation R =
    (let alpha = arctan2 (entry R 2 1) (entry R 2 2);
         beta = arctan2 (- entry R 2 0) (sqrt ((entry R 2 1)\<^sup>2 + (entry R 2 2)\<^sup>2));
         theta = arctan2 (entry R 1 0) (entry R 0 0)
     in (np_degrees alpha, np_degrees beta, np_degrees theta))"

text \<open>get_sensor_rotation of Testing_with_Euler_angles.py (lines 197 to 218).\<close>
definition get_sensor_rotation :: "nat \<Rightarrow> mat3" where
  "get_sensor_rotation sensor_idx =
    (let (x, z) =
       (if sensor_idx = 0 then (42, 30)
        else if sensor_idx = 1 then (42, 60)
        else if sensor_idx = 2 then (42, 90)
        else if sensor_idx = 3 then (60, 30)
        else if sensor_idx = 4 then (60, 60)
        else (60, 90))
     in matmul (rotation_matrix_z z) (rotation_matrix_x x))"

section \<open>Properties of the mesh\<close>

lemma dot_vscale: "dot (vscale k v) (vscale k v) = k * k * dot v v"
  by (cases v) (simp add: algebra_simps)

lemma norm3_vscale: "norm3 (vscale k v) = \<bar>k\<bar> * norm3 v"
  by (simp add: norm3_def dot_vscale real_sqrt_mult)

lemma dot_self_nonneg: "0 \<le> dot v v"
  by (cases v) simp

lemma norm3_nonneg: "0 \<le> norm3 v"
  by (simp add: norm3_def dot_self_nonneg)

lemma norm3_first_raw_pos: "0 < norm3 (raw_vertices ! 0)"
proof -
  have "0 < 1 + phi * phi"
    by (rule add_pos_nonneg) simp_all
  then show ?thesis
    by (simp add: raw_vertices_def norm3_def)
qed

lemma first_vertex_norm: "norm3 (icosahedron_vertices ! 0) = 5"
proof -
  let ?n = "norm3 (raw_vertices ! 0)"
  have len: "0 < length raw_vertices"
    by (simp add: raw_vertices_def)
  have "icosahedron_vertices ! 0 = vscale (5 / ?n) (raw_vertices ! 0)"
    unfolding icosahedron_vertices_def using len by (rule nth_map)
  then have "norm3 (icosahedron_vertices ! 0) = \<bar>5 / ?n\<bar> * ?n"
    by (simp only: norm3_vscale)
  also have "\<dots> = 5"
    using norm3_first_raw_pos by simp
  finally show ?thesis .
qed

text \<open>
  Claim C9. The generated mesh has 12 vertices and 20 triangular faces, every index of the
  face table is below 12, the first vertex has norm 5 after the scaling, and the mesh is
  closed: the face table has 30 undirected edges and each of them lies on exactly 2 faces.
\<close>
theorem icosahedron_mesh_closed:
  "length (fst get_icosahedron) = 12
   \<and> length (snd get_icosahedron) = 20
   \<and> filter (\<lambda>i. \<not> i < 12) (concat (map face_indices (snd get_icosahedron))) = []
   \<and> norm3 (fst get_icosahedron ! 0) = 5
   \<and> length (mesh_edges (snd get_icosahedron)) = 30
   \<and> map (edge_face_count (snd get_icosahedron)) (mesh_edges (snd get_icosahedron))
       = replicate 30 2"
proof -
  have v: "length icosahedron_vertices = 12"
    by (simp add: icosahedron_vertices_def raw_vertices_def)
  have f: "length icosahedron_faces = 20"
    by (simp add: icosahedron_faces_def)
  have i: "filter (\<lambda>i. \<not> i < 12) (concat (map face_indices icosahedron_faces)) = []"
    by (simp add: icosahedron_faces_def)
  have e: "length (mesh_edges icosahedron_faces) = 30"
    by (simp add: mesh_edges_def icosahedron_faces_def edge_def)
  have c: "map (edge_face_count icosahedron_faces) (mesh_edges icosahedron_faces)
      = replicate 30 2"
    by (simp add: mesh_edges_def icosahedron_faces_def edge_def edge_face_count_def
        numeral_eq_Suc)
  show ?thesis
    using v f i e c first_vertex_norm by (simp add: get_icosahedron_def)
qed

section \<open>The coverage score\<close>

lemma py_truediv_pos: "0 < b \<Longrightarrow> py_truediv a b = Inr (real a / real b)"
  by (simp add: py_truediv_def)

text \<open>
  Claim C4. For every list of face data and every table of expected faces, the coverage
  score is the number of actual faces that are expected, divided by the number of expected
  faces or by 1 when there are none; it is 1 when the actual faces are exactly the
  (non-empty) expected faces, 0 when the two sets are disjoint, and the division never
  raises ZeroDivisionError.
\<close>
theorem update_scene_score_guarded:
  "(let A = set (map fst face_data);
        E = set (case expected sensor_idx of None \<Rightarrow> [] | Some l \<Rightarrow> l)
    in update_scene_score face_data expected sensor_idx
         = Inr (real (card (A \<inter> E)) / real (max (card E) 1))
       \<and> (A = E \<and> E \<noteq> {} \<longrightarrow> update_scene_score face_data expected sensor_idx = Inr 1)
       \<and> (A \<inter> E = {} \<longrightarrow> update_scene_score face_data expected sensor_idx = Inr 0))"
proof -
  define A where "A = set (map fst face_data)"
  define E where "E = set (case expected sensor_idx of None \<Rightarrow> [] | Some l \<Rightarrow> l)"
  have fin: "finite E"
    unfolding E_def by (rule finite_set)
  have score: "update_scene_score face_data expected sensor_idx
      = Inr (real (card (A \<inter> E)) / real (max (card E) 1))"
    unfolding update_scene_score_def Let_def A_def E_def
    by (rule py_truediv_pos) simp
  have same: "update_scene_score face_data expected sensor_idx = Inr 1" if "A = E" "E \<noteq> {}"
  proof -
    have "0 < card E"
      using fin that(2) by (simp add: card_gt_0_iff)
    then show ?thesis
      using that(1) by (simp add: score max_def)
  qed
  have disj: "update_scene_score face_data expected sensor_idx = Inr 0" if "A \<inter> E = {}"
    using that by (simp add: score)
  show ?thesis
    using score same disj unfolding Let_def A_def E_def by blast
qed

theorem update_scene_score_guarded_witness:
  "update_scene_score [(0, 1, 2, (0, 0, 0)), (1, 1, 2, (0, 0, 0)), (5, 1, 2, (0, 0, 0))]
     expected_visible_faces 0 = Inr 1
   \<and> update_scene_score [(2, 1, 2, (0, 0, 0))] expected_visible_faces 0 = Inr 0
   \<and> update_scene_score [(2, 1, 2, (0, 0, 0))] expected_visible_faces 6 = Inr 0"
  using update_scene_score_guarded
      [of "[(0, 1, 2, (0, 0, 0)), (1, 1, 2, (0, 0, 0)), (5, 1, 2, (0, 0, 0))]"
          expected_visible_faces 0]
    update_scene_score_guarded [of "[(2, 1, 2, (0, 0, 0))]" expected_visible_faces 0]
    update_scene_score_guarded [of "[(2, 1, 2, (0, 0, 0))]" expected_visible_faces 6]
  by (simp add: expected_visible_faces_def Let_def)

section \<open>Face normals\<close>

lemma dot_self_eq_0_iff: "dot v v = 0 \<longleftrightarrow> v = (0, 0, 0)"
proof (cases v)
  case (fields x y z)
  have "x * x + y * y + z * z = 0 \<longleftrightarrow> x = 0 \<and> y = 0 \<and> z = 0"
    by (smt (verit) mult_eq_0_iff zero_le_square add_nonneg_nonneg)
  then show ?thesis
    using fields by simp
qed

lemma norm3_eq_0_iff: "norm3 v = 0 \<longleftrightarrow> v = (0, 0, 0)"
  by (simp add: norm3_def dot_self_eq_0_iff)

lemma norm3_vdiv: "norm3 (vdiv v k) = norm3 v / \<bar>k\<bar>"
proof (cases v)
  case (fields x y z)
  have "dot (vdiv v k) (vdiv v k) = dot v v / (k * k)"
    using fields by (simp add: add_divide_distrib)
  then show ?thesis
    by (simp add: norm3_def real_sqrt_divide)
qed

lemma np_normalize_unit: "np_normalize v = Some n \<Longrightarrow> norm3 n = 1"
  by (auto simp add: np_normalize_def norm3_vdiv norm3_nonneg split: if_splits)

text \<open>
  Claim C8 as stated fails: on coincident points, and on collinear points, the function
  returns the NaN vector and raises nothing.
\<close>
theorem calculate_face_normal_degenerate_counterexample:
  "calculate_face_normal ((1, 2, 3), (1, 2, 3), (1, 2, 3)) = Inr None
   \<and> calculate_face_normal ((0, 0, 0), (1, 1, 1), (2, 2, 2)) = Inr None
   \<and> calculate_face_normal ((0, 0, 0), (1, 1, 1), (2, 2, 2)) \<noteq> Inl DegenerateFaceError"
  by (simp add: np_normalize_def norm3_def)

text \<open>
  Claim C8, amended. calculate_face_normal has no guard and never raises: when the cross
  product of the two edges is not the zero vector it returns that cross product divided by
  its norm, a unit vector; when the three points are collinear or coincident (zero cross
  product) it returns the NaN vector.
\<close>
theorem calculate_face_normal_unguarded:
  "(cross (vsub v2 v1) (vsub v3 v1) \<noteq> (0, 0, 0) \<longrightarrow>
      (\<exists>n. calculate_face_normal (v1, v2, v3) = Inr (Some n)
         \<and> n = vdiv (cross (vsub v2 v1) (vsub v3 v1)) (norm3 (cross (vsub v2 v1) (vsub v3 v1)))
         \<and> norm3 n = 1))
   \<and> (cross (vsub v2 v1) (vsub v3 v1) = (0, 0, 0) \<longrightarrow>
        calculate_face_normal (v1, v2, v3) = Inr None)"
proof -
  let ?c = "cross (vsub v2 v1) (vsub v3 v1)"
  have "norm3 (vdiv ?c (norm3 ?c)) = 1" if "?c \<noteq> (0, 0, 0)"
    using that by (simp add: norm3_vdiv norm3_nonneg norm3_eq_0_iff)
  then show ?thesis
    by (simp add: np_normalize_def norm3_eq_0_iff Let_def)
qed

theorem calculate_face_normal_unguarded_witness:
  "calculate_face_normal ((0, 0, 0), (1, 0, 0), (0, 1, 0)) = Inr (Some (0, 0, 1))
   \<and> calculate_face_normal ((0, 0, 0), (1, 0, 0), (2, 0, 0)) = Inr None"
  using calculate_face_normal_unguarded [of "(1, 0, 0)" "(0, 0, 0)" "(0, 1, 0)"]
    calculate_face_normal_unguarded [of "(1, 0, 0)" "(0, 0, 0)" "(2, 0, 0)"]
  by (simp add: norm3_def)

section \<open>Clipping before arccos\<close>

lemma clipped_angle_calculate_angle:
  "clipped_angle (dot view_vector face_normal) = Some (calculate_angle view_vector face_normal)"
  by (simp add: clipped_angle_def calculate_angle_def np_arccos_def np_clip_def)

text \<open>
  Claim C5. The angle expression of Six_camera.py applies arccos to the dot product as it
  is: at the double just above 1 (a dot product of two normalised vectors after rounding)
  arccos is evaluated outside its domain and the angle is NaN, where the clipped
  expression of calculate_angle gives 0.
\<close>
theorem unclipped_angle_overshoot:
  "unclipped_angle (1 + 1 / 2 ^ 52) = None \<and> clipped_angle (1 + 1 / 2 ^ 52) = Some 0"
  by (simp add: unclipped_angle_def clipped_angle_def np_arccos_def np_clip_def np_degrees_def)

section \<open>The rig objective\<close>

lemma fold_union_sets: "fold (\<lambda>faces u. u \<union> set faces) xs U = U \<union> \<Union> (set ` set xs)"
  by (induction xs arbitrary: U) auto

lemma fold_add_sum_list: "fold (\<lambda>j acc. acc + g j) xs (a::nat) = a + sum_list (map g xs)"
  by (induction xs arbitrary: a) simp_all

lemma overlap_penalty_spec: "overlap_penalty vf = spec_overlap vf"
proof -
  let ?g = "\<lambda>i j. card (set (vf ! i) \<inter> set (vf ! j))"
  have inner: "fold (\<lambda>j acc'. acc' + ?g i j) [i + 1 ..< length vf] acc
      = acc + (\<Sum>j = i + 1 ..< length vf. ?g i j)" for i acc
    by (simp only: fold_add_sum_list interv_sum_list_conv_sum_set_nat set_upt)
  have inner_fun: "(\<lambda>i. fold (\<lambda>j acc'. acc' + ?g i j) [i + 1 ..< length vf])
      = (\<lambda>i acc. acc + (\<Sum>j = i + 1 ..< length vf. ?g i j))"
    by (intro ext) (rule inner)
  have "overlap_penalty vf
      = fold (\<lambda>i acc. acc + (\<Sum>j = i + 1 ..< length vf. ?g i j)) [0 ..< length vf] 0"
    unfolding overlap_penalty_def by (simp only: inner_fun)
  also have "\<dots> = (\<Sum>i = 0 ..< length vf. \<Sum>j = i + 1 ..< length vf. ?g i j)"
    by (simp only: fold_add_sum_list interv_sum_list_conv_sum_set_nat set_upt add_0)
  finally show ?thesis
    by (simp only: spec_overlap_def)
qed

lemma those_np_div:
  "\<forall>a \<in> set xs. f a \<noteq> 0 \<Longrightarrow>
     those (map (\<lambda>a. np_div 1 (f a)) xs) = Some (map (\<lambda>a. 1 / f a) xs)"
  by (induction xs) (simp_all add: np_div_def)

lemma angle_penalty_finite:
  assumes "\<forall>a \<in> set angles. 1 + cos (np_radians a) \<noteq> 0"
  shows "angle_penalty angles = Some (\<Sum>a \<leftarrow> angles. 1 / (1 + cos (a * pi / 180)))"
  using those_np_div [of angles "\<lambda>a. 1 + cos (np_radians a)", OF assms]
  by (simp add: angle_penalty_def np_sum_def np_radians_def)

text \<open>
  Claim C3. For a non-zero face count and angles at which no term of the angle penalty
  divides by zero, evaluate_coverage_view_plan returns exactly the coverage fraction (the
  size of the union of all sensors' visible face sets over the face count) minus the total
  distance over 100, minus the sum of 1 / (1 + cos angle) over the angles in radians, minus
  a tenth of the overlap, the overlap being the sum over the sensor pairs i < j of the
  number of face indices the two sensors share.
\<close>
theorem evaluate_coverage_view_plan_formula:
  assumes "total_faces \<noteq> 0"
    and "\<forall>a \<in> set angles. 1 + cos (np_radians a) \<noteq> 0"
  shows "evaluate_coverage_view_plan sensors_positions visible_faces distances angles total_faces
    = Inr (Some (spec_objective visible_faces distances angles total_faces))"
  using assms(1) angle_penalty_finite [OF assms(2)]
  by (simp add: evaluate_coverage_view_plan_def py_truediv_def fold_union_sets
      overlap_penalty_spec spec_objective_def)

theorem evaluate_coverage_view_plan_formula_witness:
  "evaluate_coverage_view_plan get_sensor_positions [[0, 1], [1, 2], [2, 1]] [1, 2, 3, 4, 5, 5]
     [0, 60, 0, 0, 60, 60] 20 = Inr (Some (- 79 / 20))"
proof -
  have c: "cos (pi / 3) = 1 / 2"
    by (rule cos_60)
  have s: "spec_overlap [[0, 1], [1, 2], [2, 1]] = 4"
    by (simp add: spec_overlap_def numeral_eq_Suc) 
  have "\<Union> (set ` set [[0::nat, 1], [1, 2], [2, 1]]) = {0, 1, 2}"
    by auto
  then have u: "card (\<Union> (set ` set [[0::nat, 1], [1, 2], [2, 1]])) = 3"
    by simp
  have h: "\<forall>a \<in> set [0, 60, 0, 0, 60, 60]. 1 + cos (np_radians a) \<noteq> 0"
    by (simp add: np_radians_def c)
  have so: "spec_objective [[0, 1], [1, 2], [2, 1]] [1, 2, 3, 4, 5, 5] [0, 60, 0, 0, 60, 60] 20
      = - 79 / 20"
    by (simp only: spec_objective_def s u) (simp add: c)
  have "evaluate_coverage_view_plan get_sensor_positions [[0, 1], [1, 2], [2, 1]]
      [1, 2, 3, 4, 5, 5] [0, 60, 0, 0, 60, 60] 20
    = Inr (Some (spec_objective [[0, 1], [1, 2], [2, 1]] [1, 2, 3, 4, 5, 5]
        [0, 60, 0, 0, 60, 60] 20))"
    by (rule evaluate_coverage_view_plan_formula [OF _ h]) simp
  then show ?thesis
    by (simp only: so)
qed

section \<open>The back-face evaluator\<close>

lemma dot_commute: "dot a b = dot b a"
  by (cases a, cases b) simp

lemma face_vertices_in_range:
  "face_in_range vs f \<Longrightarrow> face_vertices vs f = Inr (face_triangle vs f)"
  by (cases f) (simp add: face_in_range_def face_triangle_def)

lemma face_vertices_out_of_range:
  "\<not> face_in_range vs f \<Longrightarrow> face_vertices vs f = Inl IndexError"
  by (cases f) (simp add: face_in_range_def)

lemma faces_loop_Cons:
  assumes "face_in_range vs f"
  shows "faces_loop sp vs (f # fs) k (svf, ds, as) =
    (if backface_visible sp (face_triangle vs f)
     then faces_loop sp vs fs (Suc k)
            (svf @ [k], ds @ [norm3 (vsub sp (face_center (face_triangle vs f)))],
             as @ [face_angle sp (face_triangle vs f)])
     else faces_loop sp vs fs (Suc k) (svf, ds, as))"
proof -
  obtain v0 v1 v2 where t: "face_triangle vs f = (v0, v1, v2)"
    by (cases "face_triangle vs f") auto
  show ?thesis
    using face_vertices_in_range [OF assms] t
    by (simp add: backface_visible_def face_angle_def calculate_angle_def np_normalize_def
        Let_def)
qed

lemma faces_loop_filter:
  assumes "list_all (face_in_range vs) fs"
  shows "faces_loop sp vs fs k (svf, ds, as) =
    (let vis = filter (\<lambda>(i, f). backface_visible sp (face_triangle vs f))
                 (zip [k ..< k + length fs] fs)
     in Inr (svf @ map fst vis,
             ds @ map (\<lambda>(i, f). norm3 (vsub sp (face_center (face_triangle vs f)))) vis,
             as @ map (\<lambda>(i, f). face_angle sp (face_triangle vs f)) vis))"
  using assms
proof (induction fs arbitrary: k svf ds as)
  case Nil
  then show ?case by simp
next
  case (Cons f fs)
  have r: "face_in_range vs f" and rs: "list_all (face_in_range vs) fs"
    using Cons.prems by simp_all
  have u: "[k ..< k + length (f # fs)] = k # [Suc k ..< Suc k + length fs]"
    by (subst upt_rec) simp
  show ?case
    by (simp only: faces_loop_Cons [OF r] Cons.IH [OF rs] u) (simp add: Let_def)
qed


lemma zip_upt_nth: "zip [0 ..< length xs] xs = map (\<lambda>i. (i, xs ! i)) [0 ..< length xs]"
  by (rule nth_equalityI) simp_all

lemma enumerate_filter_indices:
  "map fst (filter (\<lambda>(i, f). P f) (zip [0 ..< length xs] xs))
    = filter (\<lambda>i. P (xs ! i)) [0 ..< length xs]"
  by (simp add: zip_upt_nth filter_map comp_def)

lemma enumerate_filter_map:
  "map (\<lambda>(i, f). g f) (filter (\<lambda>(i, f). P f) (zip [0 ..< length xs] xs))
    = map (\<lambda>i. g (xs ! i)) (filter (\<lambda>i. P (xs ! i)) [0 ..< length xs])"
  by (simp add: zip_upt_nth filter_map comp_def)

lemma evaluate_visible_faces_loop_Cons:
  assumes "face_in_range vs f"
  shows "evaluate_visible_faces_loop (Some sp) vs (f # fs) n =
    evaluate_visible_faces_loop (Some sp) vs fs
      (if backface_visible sp (face_triangle vs f) then n + 1 else n)"
proof -
  obtain v0 v1 v2 where t: "face_triangle vs f = (v0, v1, v2)"
    by (cases "face_triangle vs f") auto
  show ?thesis
    using face_vertices_in_range [OF assms] t
    by (simp add: backface_visible_def np_normalize_def Let_def)
qed

lemma evaluate_visible_faces_loop_count:
  assumes "list_all (face_in_range vs) fs"
  shows "evaluate_visible_faces_loop (Some sp) vs fs n
    = Inr (n + length (filter (\<lambda>f. backface_visible sp (face_triangle vs f)) fs))"
  using assms
proof (induction fs arbitrary: n)
  case Nil
  then show ?case by simp
next
  case (Cons f fs)
  have r: "face_in_range vs f" and rs: "list_all (face_in_range vs) fs"
    using Cons.prems by simp_all
  show ?case
    by (simp only: evaluate_visible_faces_loop_Cons [OF r] Cons.IH [OF rs]) simp
qed

lemma length_filter_indices:
  "length (filter (\<lambda>i. P (xs ! i)) [0 ..< length xs]) = length (filter P xs)"
proof -
  have "filter P xs = map (\<lambda>i. xs ! i) (filter (\<lambda>i. P (xs ! i)) [0 ..< length xs])"
    by (metis (no_types, lifting) filter_map comp_def map_nth filter_cong)
  then show ?thesis
    by (metis length_map)
qed

text \<open>
  Claim C2. For a mesh whose faces index into the vertex array, the face loop of the
  back-face evaluator returns, for a sensor position, exactly the indices of the faces
  that are visible by the specification's test (centre the mean of the vertices, view
  vector the normalised difference of sensor and centre, positive dot product with the
  face normal), each with the distance from the sensor to the centre; the indices come in
  increasing order and none twice, and evaluate_visible_faces counts the same faces.
\<close>
theorem backface_records_in_face_order:
  assumes "list_all (face_in_range vs) fs"
  shows "\<exists>idxs distances angles.
    faces_loop sp vs fs 0 ([], [], []) = Inr (idxs, distances, angles)
    \<and> idxs = filter (\<lambda>i. backface_visible sp (triangle_at vs fs i)) [0 ..< length fs]
    \<and> distances = map (\<lambda>i. norm3 (vsub sp (face_center (triangle_at vs fs i)))) idxs
    \<and> sorted_wrt (<) idxs \<and> distinct idxs
    \<and> evaluate_visible_faces (Some sp) vs fs = Inr (length idxs)"
proof -
  let ?P = "\<lambda>f. backface_visible sp (face_triangle vs f)"
  let ?idxs = "filter (\<lambda>i. ?P (fs ! i)) [0 ..< length fs]"
  have loop: "faces_loop sp vs fs 0 ([], [], [])
      = Inr (?idxs, map (\<lambda>i. norm3 (vsub sp (face_center (face_triangle vs (fs ! i))))) ?idxs,
             map (\<lambda>i. face_angle sp (face_triangle vs (fs ! i))) ?idxs)"
    by (simp only: faces_loop_filter [OF assms] Let_def append_Nil add_0
        enumerate_filter_indices enumerate_filter_map)
  have srt: "sorted_wrt (<) ?idxs"
    by (rule sorted_wrt_filter) simp
  have dst: "distinct ?idxs"
    by simp
  have cnt: "evaluate_visible_faces (Some sp) vs fs = Inr (length ?idxs)"
    using length_filter_indices [of ?P fs]
    by (simp add: evaluate_visible_faces_def evaluate_visible_faces_loop_count [OF assms])
  show ?thesis
    using loop srt dst cnt by (simp add: triangle_at_def)
qed


theorem backface_records_in_face_order_witness:
  "faces_loop (1 / 3, 1 / 3, 1) [(0, 0, 0), (1, 0, 0), (0, 1, 0)] [(0, 2, 1), (0, 1, 2)] 0
      ([], [], []) = Inr ([1], [1], [0])
   \<and> evaluate_visible_faces (Some (1 / 3, 1 / 3, 1)) [(0, 0, 0), (1, 0, 0), (0, 1, 0)]
        [(0, 2, 1), (0, 1, 2)] = Inr 1"
proof -
  have r: "list_all (face_in_range [(0, 0, 0), (1, 0, 0), (0, 1, 0)]) [(0, 2, 1), (0, 1, 2)]"
    by (simp add: face_in_range_def)
  have a: "faces_loop (1 / 3, 1 / 3, 1) [(0, 0, 0), (1, 0, 0), (0, 1, 0)]
      [(0, 2, 1), (0, 1, 2)] 0 ([], [], []) = Inr ([1], [1], [0])"
    by (simp add: np_normalize_def norm3_def calculate_angle_def np_clip_def np_degrees_def)
  show ?thesis
    using backface_records_in_face_order [OF r, of "(1 / 3, 1 / 3, 1)"] a by simp
qed

section \<open>Angles of visible faces\<close>

lemma clipped_positive_angle:
  assumes "0 < d"
  shows "0 \<le> np_degrees (arccos (np_clip d (- 1) 1))"
    and "np_degrees (arccos (np_clip d (- 1) 1)) < 90"
    and "1 < 1 + cos (np_radians (np_degrees (arccos (np_clip d (- 1) 1))))"
proof -
  let ?x = "np_clip d (- 1) 1"
  have x: "0 < ?x" "?x \<le> 1"
    using assms by (simp_all add: np_clip_def)
  have lo: "0 \<le> arccos ?x"
    using x by (intro arccos_lbound) simp_all
  have c: "cos (arccos ?x) = ?x"
    using x by (intro cos_arccos) simp_all
  have hi: "arccos ?x < pi / 2"
  proof (rule ccontr)
    assume "\<not> arccos ?x < pi / 2"
    then have "pi / 2 \<le> arccos ?x"
      by simp
    moreover have "arccos ?x \<le> pi"
      using x by (intro arccos_ubound) simp_all
    ultimately have "cos (arccos ?x) \<le> cos (pi / 2)"
      by (intro cos_monotone_0_pi_le) simp_all
    then show False
      using c x by simp
  qed
  show "0 \<le> np_degrees (arccos ?x)"
    using lo by (simp add: np_degrees_def)
  have "arccos ?x * 180 < pi / 2 * 180"
    using hi by (intro mult_strict_right_mono) simp_all
  then show "np_degrees (arccos ?x) < 90"
    by (simp add: np_degrees_def pos_divide_less_eq)
  show "1 < 1 + cos (np_radians (np_degrees (arccos ?x)))"
    using c x by (simp add: np_radians_def np_degrees_def)
qed



lemma face_angle_acute:
  assumes "backface_visible sp fv"
  shows "acute_angle (face_angle sp fv)"
proof -
  obtain v0 v1 v2 where t: "fv = (v0, v1, v2)"
    by (cases fv) auto
  let ?c = "cross (vsub v1 v0) (vsub v2 v0)"
  let ?w = "vsub sp (vdiv (vadd (vadd v0 v1) v2) 3)"
  have "0 < dot (vdiv ?w (norm3 ?w)) (vdiv ?c (norm3 ?c))"
    using assms t by (simp add: backface_visible_def Let_def dot_commute)
  from clipped_positive_angle [OF this] show ?thesis
    using t by (simp add: acute_angle_def face_angle_def Let_def)
qed

lemma faces_loop_error:
  "\<not> list_all (face_in_range vs) fs \<Longrightarrow> faces_loop sp vs fs k (svf, ds, as) = Inl IndexError"
proof (induction fs arbitrary: k svf ds as)
  case Nil
  then show ?case by simp
next
  case (Cons f fs)
  show ?case
  proof (cases "face_in_range vs f")
    case True
    then have "\<not> list_all (face_in_range vs) fs"
      using Cons.prems by simp
    then have ih: "faces_loop sp vs fs k' (svf', ds', as') = Inl IndexError"
      for k' svf' ds' as'
      by (rule Cons.IH)
    show ?thesis
      by (simp only: faces_loop_Cons [OF True] ih if_cancel)
  next
    case False
    then show ?thesis
      by (simp add: face_vertices_out_of_range)
  qed
qed

lemma faces_loop_angles:
  assumes "faces_loop sp vs fs k (svf, ds, as) = Inr (svf', ds', as')"
    and "list_all acute_angle as"
  shows "list_all acute_angle as'"
proof -
  have r: "list_all (face_in_range vs) fs"
    using assms(1) faces_loop_error [of vs fs sp k svf ds as] by auto
  let ?vis = "filter (\<lambda>(i, f). backface_visible sp (face_triangle vs f))
      (zip [k ..< k + length fs] fs)"
  have "as' = as @ map (\<lambda>(i, f). face_angle sp (face_triangle vs f)) ?vis"
    using assms(1) by (simp add: faces_loop_filter [OF r] Let_def)
  moreover have "list_all acute_angle (map (\<lambda>(i, f). face_angle sp (face_triangle vs f)) ?vis)"
    by (auto simp add: list_all_iff face_angle_acute)
  ultimately show ?thesis
    using assms(2) by simp
qed

lemma sensors_loop_angles:
  "sensors_loop sps vs fs (vf, ds, as) = Inr (vf', ds', as') \<Longrightarrow> list_all acute_angle as
    \<Longrightarrow> list_all acute_angle as'"
proof (induction sps arbitrary: vf ds as)
  case Nil
  then show ?case by simp
next
  case (Cons sp sps)
  show ?case
  proof (cases "faces_loop sp vs fs 0 ([], ds, as)")
    case (Inl e)
    then show ?thesis
      using Cons.prems(1) by simp
  next
    case (Inr st)
    obtain svf ds1 as1 where st: "st = (svf, ds1, as1)"
      by (cases st) auto
    have "list_all acute_angle as1"
      using faces_loop_angles Inr st Cons.prems(2) by blast
    moreover have "sensors_loop sps vs fs (vf @ [svf], ds1, as1) = Inr (vf', ds', as')"
      using Cons.prems(1) Inr st by simp
    ultimately show ?thesis
      using Cons.IH by blast
  qed
qed

lemma sensors_loop_total:
  "list_all (face_in_range vs) fs \<Longrightarrow> \<exists>r. sensors_loop sps vs fs (vf, ds, as) = Inr r"
proof (induction sps arbitrary: vf ds as)
  case Nil
  then show ?case by simp
next
  case (Cons sp sps)
  then show ?case
    by (simp add: faces_loop_filter Let_def)
qed

lemma icosahedron_in_range: "list_all (face_in_range icosahedron_vertices) icosahedron_faces"
  by (simp add: icosahedron_vertices_def raw_vertices_def icosahedron_faces_def
      face_in_range_def)

lemma acute_angles_penalty:
  assumes "list_all acute_angle angles"
  shows "\<exists>p. angle_penalty angles = Some p"
proof -
  have "\<forall>a \<in> set angles. 1 + cos (np_radians a) \<noteq> 0"
    using assms by (auto simp add: list_all_iff acute_angle_def)
  then show ?thesis
    by (simp add: angle_penalty_finite)
qed

text \<open>
  Claim C10. Every angle that the sensor loop hands to the objective comes from a face
  with a positive dot product: it is at least 0 and below 90 degrees, 1 + cos of it is
  above 1, so the angle penalty has no division by zero; and the run on the six sensors
  and the icosahedron returns a finite score.
\<close>
theorem angle_penalty_never_divides_by_zero:
  "(sensors_loop sps vs fs ([], [], []) = Inr (visible_faces, distances, angles) \<longrightarrow>
      (\<forall>a \<in> set angles. 0 \<le> a \<and> a < 90 \<and> 1 < 1 + cos (np_radians a))
      \<and> (\<exists>p. angle_penalty angles = Some p))
   \<and> (\<exists>score. plot_sensor_and_phases = Inr (Some score))"
proof -
  have gen: "list_all acute_angle as" if "sensors_loop S V F ([], [], []) = Inr (vf, ds, as)"
    for S V F vf ds as
    using sensors_loop_angles [OF that] by simp
  have first: "(\<forall>a \<in> set angles. 0 \<le> a \<and> a < 90 \<and> 1 < 1 + cos (np_radians a))
      \<and> (\<exists>p. angle_penalty angles = Some p)"
    if "sensors_loop sps vs fs ([], [], []) = Inr (visible_faces, distances, angles)"
    using gen [OF that] acute_angles_penalty [of angles]
    by (simp add: list_all_iff acute_angle_def)
  obtain r where r: "sensors_loop get_sensor_positions icosahedron_vertices icosahedron_faces
      ([], [], []) = Inr r"
    using sensors_loop_total [OF icosahedron_in_range] by blast
  obtain vf ds as where t: "r = (vf, ds, as)"
    by (cases r) auto
  obtain p where p: "angle_penalty as = Some p"
    using acute_angles_penalty [OF gen] r t by blast
  have "length icosahedron_faces = 20"
    by (simp add: icosahedron_faces_def)
  then have "\<exists>score. plot_sensor_and_phases = Inr (Some score)"
    using r t p
    by (simp add: plot_sensor_and_phases_def get_icosahedron_def
        evaluate_coverage_view_plan_def py_truediv_def)
  then show ?thesis
    using first by blast
qed

theorem angle_penalty_never_divides_by_zero_witness:
  "sensors_loop [(1 / 3, 1 / 3, 1), (1 / 3, 1 / 3, - 1)] [(0, 0, 0), (1, 0, 0), (0, 1, 0)]
      [(0, 2, 1), (0, 1, 2)] ([], [], []) = Inr ([[1], [0]], [1, 1], [0, 0])
   \<and> angle_penalty [0, 0] = Some 1"
proof -
  have a: "sensors_loop [(1 / 3, 1 / 3, 1), (1 / 3, 1 / 3, - 1)]
      [(0, 0, 0), (1, 0, 0), (0, 1, 0)] [(0, 2, 1), (0, 1, 2)] ([], [], [])
    = Inr ([[1], [0]], [1, 1], [0, 0])"
    by (simp add: np_normalize_def norm3_def calculate_angle_def np_clip_def np_degrees_def)
  have "\<exists>p. angle_penalty [0, 0] = Some p"
    using angle_penalty_never_divides_by_zero a by blast
  then show ?thesis
    using a by (auto simp add: angle_penalty_def np_sum_def np_div_def np_radians_def)
qed

section \<open>The viewpoint search\<close>

lemma evaluate_visible_faces_loop_total:
  "list_all (face_in_range vs) fs \<Longrightarrow> \<exists>c. evaluate_visible_faces_loop p vs fs n = Inr c"
proof (induction fs arbitrary: n)
  case Nil
  then show ?case by simp
next
  case (Cons f fs)
  have r: "face_vertices vs f = Inr (face_triangle vs f)"
    using Cons.prems by (simp add: face_vertices_in_range)
  obtain v0 v1 v2 where t: "face_triangle vs f = (v0, v1, v2)"
    by (cases "face_triangle vs f") auto
  have rs: "list_all (face_in_range vs) fs"
    using Cons.prems by simp
  show ?case
    using Cons.IH [OF rs] by (simp add: r t Let_def split: option.splits)
qed

lemma evaluate_icosahedron:
  "evaluate_visible_faces p icosahedron_vertices icosahedron_faces = Inr (visible_count p)"
proof -
  obtain c where "evaluate_visible_faces p icosahedron_vertices icosahedron_faces = Inr c"
    using evaluate_visible_faces_loop_total [OF icosahedron_in_range]
    by (auto simp add: evaluate_visible_faces_def)
  then show ?thesis
    by (simp add: visible_count_def)
qed

lemma spawn_consistent:
  "consistent new \<Longrightarrow>
    \<exists>new' k'. spawn rnd icosahedron_vertices icosahedron_faces position n k new = Inr (new', k')
      \<and> consistent new'"
proof (induction n arbitrary: k new)
  case 0
  then show ?case by simp
next
  case (Suc n)
  let ?p = "perturb position (rnd k)"
  have "consistent (new @ [(?p, visible_count ?p)])"
    using Suc.prems by (simp add: consistent_def)
  from Suc.IH [OF this] show ?case
    by (simp add: evaluate_icosahedron Let_def)
qed

lemma expand_consistent:
  "consistent new \<Longrightarrow>
    \<exists>new' k'. expand rnd icosahedron_vertices icosahedron_faces cs k new = Inr (new', k')
      \<and> consistent new'"
proof (induction cs arbitrary: k new)
  case Nil
  then show ?case by simp
next
  case (Cons c cs)
  obtain position visible_faces where c: "c = (position, visible_faces)"
    by (cases c) auto
  obtain new1 k1 where s: "spawn rnd icosahedron_vertices icosahedron_faces position 5 k new
      = Inr (new1, k1)" and c1: "consistent new1"
    using spawn_consistent [OF Cons.prems] by blast
  from Cons.IH [OF c1] show ?case
    by (simp add: c s)
qed

lemma sorted_head_best:
  assumes "ys \<noteq> []"
  shows "snd (hd (sorted_by_visibility ys)) = best_count ys"
    and "sorted_by_visibility ys \<noteq> []"
proof -
  let ?f = "\<lambda>x::candidate. - int (snd x)"
  let ?s = "sorted_by_visibility ys"
  have "length ?s = length ys"
    unfolding sorted_by_visibility_def by (rule length_sort)
  then have ne: "?s \<noteq> []"
    using assms by auto
  then obtain a rest where s: "?s = a # rest"
    by (cases ?s) auto
  have "sorted (map ?f ?s)"
    by (simp add: sorted_by_visibility_def)
  then have le: "\<forall>y \<in> set rest. ?f a \<le> ?f y"
    by (simp add: s)
  have st: "set ?s = set ys"
    by (simp add: sorted_by_visibility_def)
  have "Max (snd ` set ys) = snd a"
  proof (rule Max_eqI)
    show "finite (snd ` set ys)" by simp
    show "snd a \<in> snd ` set ys"
      using st s by (metis imageI list.set_intros(1))
    fix c assume "c \<in> snd ` set ys"
    then obtain y where y: "y \<in> set ?s" "c = snd y"
      using st by auto
    then show "c \<le> snd a"
      using le s by auto
  qed
  then show "snd (hd ?s) = best_count ys"
    by (simp add: s best_count_def)
  show "?s \<noteq> []" by (rule ne)
qed


lemma iteration_step:
  assumes "consistent cs" and "cs \<noteq> []"
  shows "\<exists>cs' k'. iteration rnd icosahedron_vertices icosahedron_faces (cs, k) = Inr (cs', k')
    \<and> consistent cs' \<and> cs' \<noteq> [] \<and> best_count cs \<le> best_count cs'
    \<and> snd (hd cs') = best_count cs'"
proof -
  have "consistent []"
    by (simp add: consistent_def)
  then obtain new k' where e: "expand rnd icosahedron_vertices icosahedron_faces cs k []
      = Inr (new, k')" and cn: "consistent new"
    using expand_consistent by blast
  let ?ys = "cs @ new"
  let ?s = "sorted_by_visibility ?ys"
  let ?cs' = "take num_candidates_to_keep ?s"
  have ys: "?ys \<noteq> []"
    using assms(2) by simp
  have it: "iteration rnd icosahedron_vertices icosahedron_faces (cs, k) = Inr (?cs', k')"
    by (simp add: iteration_def e)
  have s_ne: "?s \<noteq> []" and s_hd: "snd (hd ?s) = best_count ?ys"
    using sorted_head_best [OF ys] by simp_all
  have st: "set ?s = set ?ys"
    by (simp add: sorted_by_visibility_def)
  have sub: "set ?cs' \<subseteq> set ?ys"
    using set_take_subset [of num_candidates_to_keep ?s] st by simp
  have c_ys: "consistent ?ys"
    using assms(1) cn by (simp add: consistent_def)
  have c': "consistent ?cs'"
    using c_ys sub by (auto simp add: consistent_def list_all_iff)
  have ne': "?cs' \<noteq> []"
    using s_ne by (simp add: num_candidates_to_keep_def)
  have hd': "hd ?cs' = hd ?s"
    by (simp add: num_candidates_to_keep_def)
  have best': "best_count ?cs' = best_count ?ys"
    unfolding best_count_def [of ?cs']
  proof (rule Max_eqI)
    show "finite (snd ` set ?cs')" by simp
    show "best_count ?ys \<in> snd ` set ?cs'"
      using s_hd hd' ne' by (metis hd_in_set imageI)
    fix c assume "c \<in> snd ` set ?cs'"
    then have "c \<in> snd ` set ?ys"
      using sub by auto
    then show "c \<le> best_count ?ys"
      by (simp add: best_count_def)
  qed
  have mono: "best_count cs \<le> best_count ?ys"
    unfolding best_count_def using assms(2) by (intro Max_mono) auto
  show ?thesis
    using it c' ne' mono best' s_hd hd' by simp
qed

lemma iterations_invariant:
  assumes "consistent cs0" and "cs0 \<noteq> []" and "snd (hd cs0) = best_count cs0"
  shows "\<exists>cs k. iterations n rnd icosahedron_vertices icosahedron_faces (cs0, k0) = Inr (cs, k)
    \<and> consistent cs \<and> cs \<noteq> [] \<and> best_count cs0 \<le> best_count cs
    \<and> snd (hd cs) = best_count cs"
proof (induction n)
  case 0
  show ?case
    using assms by simp
next
  case (Suc n)
  then obtain cs k where i: "iterations n rnd icosahedron_vertices icosahedron_faces (cs0, k0)
      = Inr (cs, k)" and c: "consistent cs" and ne: "cs \<noteq> []"
    and b: "best_count cs0 \<le> best_count cs"
    by blast
  from iteration_step [OF c ne, of rnd k] b show ?case
    by (auto simp add: i)
qed

lemma iterations_monotone:
  assumes "consistent cs0" and "cs0 \<noteq> []" and "snd (hd cs0) = best_count cs0"
  shows "\<exists>cs k cs' k'.
    iterations n rnd icosahedron_vertices icosahedron_faces (cs0, k0) = Inr (cs, k)
    \<and> iterations (Suc n) rnd icosahedron_vertices icosahedron_faces (cs0, k0) = Inr (cs', k')
    \<and> best_count cs \<le> best_count cs'"
proof -
  obtain cs k where i: "iterations n rnd icosahedron_vertices icosahedron_faces (cs0, k0)
      = Inr (cs, k)" and c: "consistent cs" and ne: "cs \<noteq> []"
    using iterations_invariant [OF assms] by blast
  from iteration_step [OF c ne, of rnd k] show ?thesis
    by (auto simp add: i)
qed

text \<open>
  Claim C1. For every sequence of random draws, select_best_viewpoint returns a position,
  and the number of faces visible from it is at least the number visible from the initial
  position; and the best count held in the candidate pool does not decrease from one
  iteration to the next.
\<close>
theorem select_best_viewpoint_never_worse:
  "(\<exists>best c c0. select_best_viewpoint rnd = Inr best
      \<and> evaluate_visible_faces best icosahedron_vertices icosahedron_faces = Inr c
      \<and> evaluate_visible_faces initial_position icosahedron_vertices icosahedron_faces = Inr c0
      \<and> c0 \<le> c)
   \<and> (\<exists>c0 cs k cs' k'.
        evaluate_visible_faces initial_position icosahedron_vertices icosahedron_faces = Inr c0
      \<and> iterations n rnd icosahedron_vertices icosahedron_faces ([(initial_position, c0)], 0)
          = Inr (cs, k)
      \<and> iterations (Suc n) rnd icosahedron_vertices icosahedron_faces
          ([(initial_position, c0)], 0) = Inr (cs', k')
      \<and> best_count cs \<le> best_count cs')"
proof -
  let ?c0 = "visible_count initial_position"
  let ?cs0 = "[(initial_position, ?c0)]"
  have a: "consistent ?cs0" "?cs0 \<noteq> []" "snd (hd ?cs0) = best_count ?cs0"
    by (simp_all add: consistent_def best_count_def)
  obtain cs k where i: "iterations max_iterations rnd icosahedron_vertices icosahedron_faces
      (?cs0, 0) = Inr (cs, k)" and c: "consistent cs" and ne: "cs \<noteq> []"
    and b: "best_count ?cs0 \<le> best_count cs" and h: "snd (hd cs) = best_count cs"
    using iterations_invariant [OF a] by blast
  obtain best cb rest where cs: "cs = (best, cb) # rest"
    using ne by (cases cs) auto
  have cb: "cb = visible_count best"
    using c cs by (simp add: consistent_def)
  have ret: "select_best_viewpoint rnd = Inr best"
    by (simp add: select_best_viewpoint_def get_icosahedron_def evaluate_icosahedron i cs)
  have "?c0 \<le> visible_count best"
    using b h cs cb by (simp add: best_count_def)
  then have first: "\<exists>best c c0. select_best_viewpoint rnd = Inr best
      \<and> evaluate_visible_faces best icosahedron_vertices icosahedron_faces = Inr c
      \<and> evaluate_visible_faces initial_position icosahedron_vertices icosahedron_faces = Inr c0
      \<and> c0 \<le> c"
    using ret by (simp add: evaluate_icosahedron)
  show ?thesis
    using first iterations_monotone [OF a, of n rnd 0] by (simp add: evaluate_icosahedron)
qed

section \<open>Euler angles\<close>

lemma np_degrees_radians: "np_degrees (np_radians x) = x"
  by (simp add: np_degrees_def np_radians_def)

lemma arctan2_sin_cos:
  assumes r: "0 < r" and lo: "- pi < x" and hi: "x \<le> pi"
  shows "arctan2 (r * sin x) (r * cos x) = x"
proof -
  have q: "r * sin x / (r * cos x) = tan x"
    using r by (simp add: tan_def)
  consider "- (pi / 2) < x \<and> x < pi / 2" | "pi / 2 < x" | "x < - (pi / 2)"
    | "x = pi / 2" | "x = - (pi / 2)"
    by linarith
  then show ?thesis
  proof cases
    case 1
    then have "0 < cos x"
      by (intro cos_gt_zero_pi) simp_all
    then have "0 < r * cos x"
      using r by simp
    then have "arctan2 (r * sin x) (r * cos x) = arctan (r * sin x / (r * cos x))"
      unfolding arctan2_def by (simp only: if_True)
    also have "\<dots> = arctan (tan x)"
      by (simp only: q)
    also have "\<dots> = x"
      using 1 by (intro arctan_tan) simp_all
    finally show ?thesis .
  next
    case 2
    have "cos x < cos (pi / 2)"
      using 2 hi by (intro cos_monotone_0_pi) simp_all
    then have c: "r * cos x < 0"
      using r by (simp add: mult_pos_neg)
    have "0 \<le> sin x"
      using 2 hi by (intro sin_ge_zero) simp_all
    then have s: "0 \<le> r * sin x"
      using r by simp
    have "tan x = tan (x - pi)"
      using tan_periodic_pi [of "x - pi"] by simp
    moreover have "arctan (tan (x - pi)) = x - pi"
      using 2 hi by (intro arctan_tan) simp_all
    ultimately have t: "arctan (tan x) = x - pi"
      by simp
    have "\<not> 0 < r * cos x"
      using c by simp
    then have "arctan2 (r * sin x) (r * cos x) = arctan (r * sin x / (r * cos x)) + pi"
      unfolding arctan2_def using c s by (simp only: if_True if_False)
    also have "\<dots> = arctan (tan x) + pi"
      by (simp only: q)
    also have "\<dots> = x"
      using t by simp
    finally show ?thesis .
  next
    case 3
    have "cos (- x) < cos (pi / 2)"
      using 3 lo by (intro cos_monotone_0_pi) simp_all
    then have c: "r * cos x < 0"
      using r by (simp add: mult_pos_neg)
    have "0 < sin (- x)"
      using 3 lo by (intro sin_gt_zero) simp_all
    then have s: "r * sin x < 0"
      using r by (simp add: mult_pos_neg)
    have "tan (x + pi) = tan x"
      by (rule tan_periodic_pi)
    moreover have "arctan (tan (x + pi)) = x + pi"
      using 3 lo by (intro arctan_tan) simp_all
    ultimately have t: "arctan (tan x) = x + pi"
      by simp
    have "\<not> 0 < r * cos x" and "\<not> 0 \<le> r * sin x"
      using c s by simp_all
    then have "arctan2 (r * sin x) (r * cos x) = arctan (r * sin x / (r * cos x)) - pi"
      unfolding arctan2_def using c by (simp only: if_True if_False)
    also have "\<dots> = arctan (tan x) - pi"
      by (simp only: q)
    also have "\<dots> = x"
      using t by simp
    finally show ?thesis .
  next
    case 4
    have "arctan2 (r * sin (pi / 2)) (r * cos (pi / 2)) = pi / 2"
      using r by (simp add: arctan2_def)
    then show ?thesis
      by (simp only: 4)
  next
    case 5
    have "arctan2 (r * sin (- (pi / 2))) (r * cos (- (pi / 2))) = - (pi / 2)"
      using r by (simp add: arctan2_def)
    then show ?thesis
      by (simp only: 5)
  qed
qed


lemma arctan2_sin_cos_unit:
  assumes "- pi < x" and "x \<le> pi"
  shows "arctan2 (sin x) (cos x) = x"
  using arctan2_sin_cos [of 1 x] assms by simp

lemma radians_range:
  assumes "- 180 < a" and "a \<le> 180"
  shows "- pi < np_radians a" and "np_radians a \<le> pi"
proof -
  have "- 180 * pi < a * pi"
    using assms(1) by (intro mult_strict_right_mono) simp_all
  then show "- pi < np_radians a"
    by (simp add: np_radians_def)
  have "a * pi \<le> 180 * pi"
    using assms(2) by (intro mult_right_mono) simp_all
  then show "np_radians a \<le> pi"
    by (simp add: np_radians_def)
qed


lemma entries_get_rotation_matrix:
  "entry (get_rotation_matrix a b c) 0 0 = cos c * cos b"
  "entry (get_rotation_matrix a b c) 1 0 = sin c * cos b"
  "entry (get_rotation_matrix a b c) 2 0 = - sin b"
  "entry (get_rotation_matrix a b c) 2 1 = cos b * sin a"
  "entry (get_rotation_matrix a b c) 2 2 = cos b * cos a"
  "entry (get_rotation_matrix a b c) 1 1 = sin c * (sin b * sin a) + cos c * cos a"
  "entry (get_rotation_matrix a b c) 1 2 = sin c * (sin b * cos a) - cos c * sin a"
  by (simp_all add: get_rotation_matrix_def matmul_def entry_def Let_def)

lemma sy_get_rotation_matrix:
  "sqrt ((cos c * cos b)\<^sup>2 + (sin c * cos b)\<^sup>2) = \<bar>cos b\<bar>"
proof -
  have "(cos c * cos b)\<^sup>2 + (sin c * cos b)\<^sup>2 = ((cos c)\<^sup>2 + (sin c)\<^sup>2) * (cos b)\<^sup>2"
    by (simp only: power_mult_distrib distrib_right)
  also have "\<dots> = (cos b)\<^sup>2"
    by simp
  finally show ?thesis
    by simp
qed


lemma round_trip_regular:
  assumes a: "- 180 < a" "a < 180" and b: "- 90 < b" "b < 90"
    and nb: "1 / 1000000 \<le> cos (np_radians b)" and c: "- 180 < c" "c < 180"
  shows "rotation_matrix_to_euler_angles
      (get_rotation_matrix (np_radians a) (np_radians b) (np_radians c)) = (a, b, c)"
proof -
  let ?a = "np_radians a" and ?b = "np_radians b" and ?c = "np_radians c"
  have pos: "0 < cos ?b"
    using nb by simp
  have sy: "sqrt ((cos ?c * cos ?b)\<^sup>2 + (sin ?c * cos ?b)\<^sup>2) = cos ?b"
    using pos by (simp only: sy_get_rotation_matrix abs_of_pos)
  have ns: "\<not> cos ?b < 1 / 1000000"
    using nb by simp
  have "a \<le> 180" and "c \<le> 180"
    using a c by simp_all
  note ra = radians_range [OF a(1) \<open>a \<le> 180\<close>]
    and rc = radians_range [OF c(1) \<open>c \<le> 180\<close>]
  have alpha: "arctan2 (cos ?b * sin ?a) (cos ?b * cos ?a) = ?a"
    using pos ra by (intro arctan2_sin_cos)
  have "- 180 < b" and "b \<le> 180"
    using b by simp_all
  then have beta: "arctan2 (sin ?b) (cos ?b) = ?b"
    using radians_range [of b] by (intro arctan2_sin_cos_unit)
  have "arctan2 (cos ?b * sin ?c) (cos ?b * cos ?c) = ?c"
    using pos rc by (intro arctan2_sin_cos)
  then have theta: "arctan2 (sin ?c * cos ?b) (cos ?c * cos ?b) = ?c"
    by (simp only: mult.commute)
  show ?thesis
    unfolding rotation_matrix_to_euler_angles_def entries_get_rotation_matrix Let_def sy
    using ns by (simp only: if_True if_False not_not not_False_eq_True minus_minus
        alpha beta theta np_degrees_radians)
qed



lemma get_rotation_matrix_axes:
  "get_rotation_matrix (np_radians a) (np_radians b) (np_radians c)
    = matmul (rotation_matrix_z c) (matmul (rotation_matrix_y b) (rotation_matrix_x a))"
  by (simp add: get_rotation_matrix_def rotation_matrix_x_def rotation_matrix_y_def
      rotation_matrix_z_def Let_def)

lemma rotation_z_x_composition:
  "matmul (rotation_matrix_z c) (rotation_matrix_x a)
    = get_rotation_matrix (np_radians a) (np_radians 0) (np_radians c)"
  by (simp add: get_rotation_matrix_def rotation_matrix_x_def rotation_matrix_z_def Let_def
      matmul_def np_radians_def)

lemma rotation_z_x_round_trip:
  assumes "- 180 < a" "a < 180" "- 180 < c" "c < 180"
  shows "rotation_matrix_to_euler_angles (matmul (rotation_matrix_z c) (rotation_matrix_x a))
    = (a, 0, c)"
proof -
  have "(1::real) / 1000000 \<le> cos (np_radians 0)"
    by (simp add: np_radians_def)
  then show ?thesis
    using assms by (simp only: rotation_z_x_composition) (rule round_trip_regular, simp_all)
qed

lemma get_sensor_rotation_round_trip:
  "\<exists>x z. rotation_matrix_to_euler_angles (get_sensor_rotation sensor_idx) = (x, 0, z)
    \<and> get_sensor_rotation sensor_idx = matmul (rotation_matrix_z z) (rotation_matrix_x x)"
  unfolding get_sensor_rotation_def
  by (simp add: rotation_z_x_round_trip)




lemma orthogonal3_first_column_last_row:
  assumes "orthogonal3 R"
  shows "(entry R 0 0)\<^sup>2 + (entry R 1 0)\<^sup>2 = (entry R 2 1)\<^sup>2 + (entry R 2 2)\<^sup>2"
proof -
  obtain a b c d e f g h i where R: "R = ((a, b, c), (d, e, f), (g, h, i))"
    by (metis prod_cases3)
  have "g * g + h * h + i * i = 1" and "a * a + d * d + g * g = 1"
    using assms by (simp_all add: R orthogonal3_def matmul_def identity3_def)
  then have "a * a + d * d = h * h + i * i"
    by linarith
  then show ?thesis
    by (simp add: R entry_def power2_eq_square)
qed

lemma testing_euler_angles_on_orthogonal:
  assumes "orthogonal3 R"
  shows "rotation_matrix_to_euler_angles R =
    (if 1 / 1000000 \<le> sqrt ((entry R 0 0)\<^sup>2 + (entry R 1 0)\<^sup>2)
     then (np_degrees (arctan2 (entry R 2 1) (entry R 2 2)),
           np_degrees (arctan2 (- entry R 2 0) (sqrt ((entry R 2 1)\<^sup>2 + (entry R 2 2)\<^sup>2))),
           np_degrees (arctan2 (entry R 1 0) (entry R 0 0)))
     else (np_degrees (arctan2 (- entry R 1 2) (entry R 1 1)),
           np_degrees (arctan2 (- entry R 2 0) (sqrt ((entry R 2 1)\<^sup>2 + (entry R 2 2)\<^sup>2))),
           0))"
  unfolding rotation_matrix_to_euler_angles_def Let_def
    orthogonal3_first_column_last_row [OF assms]
  by (simp add: np_degrees_def not_less)

lemma orientation_euler_angles_regular_formulas:
  "rotation_matrix_to_euler_angles_orientation R =
    (np_degrees (arctan2 (entry R 2 1) (entry R 2 2)),
     np_degrees (arctan2 (- entry R 2 0) (sqrt ((entry R 2 1)\<^sup>2 + (entry R 2 2)\<^sup>2))),
     np_degrees (arctan2 (entry R 1 0) (entry R 0 0)))"
  by (simp add: rotation_matrix_to_euler_angles_orientation_def Let_def)


end
